theory Spec2Isabelle
  imports Main "HOL-Library.AList"
begin

section \<open>JavaScript values\<close>

text \<open>
  The values that gl.js passes around. Numbers are the integer-valued ones, a function is
  an opaque handle, an array is the list of its elements, and a plain object is the list
  of its own enumerable properties in the order in which \<open>Object.keys\<close> lists them.
\<close>

datatype jsval =
    JUndefined
  | JNull
  | JBool bool
  | JNum int
  | JStr string
  | JFun nat
  | JArr "jsval list"
  | JObj "(string \<times> jsval) list"

text \<open>The \<open>typeof\<close> operator; \<open>typeof null\<close> is \<open>"object"\<close>.\<close>

fun typeof :: "jsval \<Rightarrow> string" where
  "typeof JUndefined = ''undefined''"
| "typeof JNull = ''object''"
| "typeof (JBool b) = ''boolean''"
| "typeof (JNum n) = ''number''"
| "typeof (JStr s) = ''string''"
| "typeof (JFun f) = ''function''"
| "typeof (JArr xs) = ''object''"
| "typeof (JObj ps) = ''object''"

text \<open>Truthiness, as \<open>||\<close> tests it.\<close>

fun truthy :: "jsval \<Rightarrow> bool" where
  "truthy JUndefined = False"
| "truthy JNull = False"
| "truthy (JBool b) = b"
| "truthy (JNum n) = (n \<noteq> 0)"
| "truthy (JStr s) = (s \<noteq> [])"
| "truthy (JFun f) = True"
| "truthy (JArr xs) = True"
| "truthy (JObj ps) = True"

text \<open>Reading a property of an object literal: \<open>undefined\<close> when the key is absent.\<close>

definition lookup :: "(string \<times> jsval) list \<Rightarrow> string \<Rightarrow> jsval" where
  "lookup ps name = (case map_of ps name of Some v \<Rightarrow> v | None \<Rightarrow> JUndefined)"

fun get :: "jsval \<Rightarrow> string \<Rightarrow> jsval" where
  "get (JObj ps) name = lookup ps name"
| "get v name = JUndefined"

text \<open>
  \<open>Array.prototype.flat()\<close> with its default depth 1: an element that is an array is
  replaced by its elements, which are not looked into again.
\<close>

fun flat :: "jsval list \<Rightarrow> jsval list" where
  "flat [] = []"
| "flat (JArr ys # xs) = ys @ flat xs"
| "flat (x # xs) = x # flat xs"

text \<open>
  One level of un-nesting, in the words of the specification: a content argument that is a
  sequence stands for its items, any other argument for itself.
\<close>

fun unwrap_once :: "jsval \<Rightarrow> jsval list" where
  "unwrap_once (JArr ys) = ys"
| "unwrap_once v = [v]"

text \<open>Decimal digits of a natural number, for the string form of a number.\<close>

fun digits :: "nat \<Rightarrow> string" where
  "digits n = (if n < 10 then [''0123456789'' ! n]
               else digits (n div 10) @ [''0123456789'' ! (n mod 10)])"

text \<open>
  \<open>String(v)\<close> on the primitive values, for the numbers that JavaScript prints in full,
  which are those below \<open>10^21\<close> in size (the empty string stands in elsewhere).
\<close>

fun string_form :: "jsval \<Rightarrow> string" where
  "string_form JUndefined = ''undefined''"
| "string_form JNull = ''null''"
| "string_form (JBool b) = (if b then ''true'' else ''false'')"
| "string_form (JNum n) = (if n < 0 then CHR ''-'' # digits (nat (- n)) else digits (nat n))"
| "string_form (JStr s) = s"
| "string_form v = []"

section \<open>Node builder\<close>

text \<open>\<open>createTextElement(text)\<close>, gl.js lines 21-27.\<close>

definition createTextElement :: "jsval \<Rightarrow> jsval" where
  "createTextElement text =
     JObj [(''type'', JStr ''TEXT_ELEMENT''),
           (''props'', JObj [(''nodeValue'', text)]),
           (''children'', JArr [])]"

text \<open>
  \<open>createElement(type, props, ...children)\<close>, gl.js lines 6-14. The rest parameter is the
  list of the content arguments.
\<close>

definition createElement :: "jsval \<Rightarrow> jsval \<Rightarrow> jsval list \<Rightarrow> jsval" where
  "createElement type props children =
     JObj [(''type'', type),
           (''props'', if truthy props then props else JObj []),
           (''children'', JArr (map (\<lambda>child. if typeof child = ''object'' then child
                                             else createTextElement child)
                                   (flat children)))]"

section \<open>Virtual nodes\<close>

text \<open>
  A VirtualNode as \<open>render\<close> reads it: an object with a string \<open>type\<close>, an object
  \<open>props\<close> and an array \<open>children\<close> of VirtualNodes. \<open>obj_of\<close> is the JavaScript
  object that a VirtualNode is.
\<close>

datatype vnode =
  VNode (el_type: string) (el_props: "(string \<times> jsval) list") (el_children: "vnode list")

fun obj_of :: "vnode \<Rightarrow> jsval" where
  "obj_of (VNode t ps cs) =
     JObj [(''type'', JStr t), (''props'', JObj ps), (''children'', JArr (map obj_of cs))]"

text \<open>The number of nodes of a VirtualNode tree.\<close>

fun vsize :: "vnode \<Rightarrow> nat" where
  "vsize (VNode t ps cs) = Suc (sum_list (map vsize cs))"

section \<open>The host display surface\<close>

text \<open>
  The document that \<open>render\<close> mutates. Host nodes are mutable objects with identity, so
  they live in a store: a node's reference is its index in \<open>nodes\<close>, creating a node
  extends the store, and a node lists its children by reference. \<open>events\<close> records
  every call made on the host, in order. Every capability succeeds: a host that rejects a
  type name, or that refuses children under a text node, is not modelled.

  Of a node the model keeps what the program did to it and, for a text node, the text it
  shows. \<open>assigned\<close> holds, for every property name, the value that \<open>render\<close>
  assigned last under that name. It is not what the node gives back when the property
  is read: the host's own properties convert what they are given, each in its way, and
  that is the host's affair. \<open>payload\<close> is the character data of a text node as the
  host keeps it: \<open>None\<close> on an element, and on a text node whose data this model does
  not determine.
\<close>

datatype hkind = TextNode | ElementNode string

record hnode =
  kind :: hkind
  assigned :: "(string \<times> jsval) list"
  payload :: "string option"
  childNodes :: "nat list"

datatype event =
    CreateTextNode nat string
  | CreateElement nat string
  | SetProperty nat string jsval
  | AppendChild nat nat
  | ClearChildren nat
  | ConsoleLog string

record host =
  nodes :: "hnode list"
  events :: "event list"

text \<open>
  What the host makes of a value assigned to \<open>nodeValue\<close>, an attribute of type
  \<open>DOMString?\<close>: \<open>null\<close> and \<open>undefined\<close> stand for no string, which a text node
  takes as the empty string, and any other value is converted to a string. The model
  determines the string of a boolean, of a string and of a number that JavaScript holds
  exactly and prints in full; the string of a function, an array or an object depends on
  the value's own \<open>toString\<close> and is left open.
\<close>

fun nullable_DOMString :: "jsval \<Rightarrow> string option" where
  "nullable_DOMString JUndefined = Some ''''"
| "nullable_DOMString JNull = Some ''''"
| "nullable_DOMString (JBool b) = Some (string_form (JBool b))"
| "nullable_DOMString (JNum n) =
     (if - 9007199254740992 < n \<and> n < 9007199254740992 then Some (string_form (JNum n)) else None)"
| "nullable_DOMString (JStr s) = Some s"
| "nullable_DOMString v = None"

text \<open>
  The payload of a node of kind \<open>k\<close> after the assignment of \<open>v\<close> under \<open>name\<close>.
  On a text node \<open>nodeValue\<close> sets the character data; \<open>data\<close> and
  \<open>textContent\<close> set it too, by rules that are left open here. No other assignment
  changes it.
\<close>

definition payload_after :: "hkind \<Rightarrow> string \<Rightarrow> jsval \<Rightarrow> string option \<Rightarrow> string option" where
  "payload_after k name v p =
     (if k = TextNode \<and> name = ''nodeValue'' then nullable_DOMString v
      else if k = TextNode \<and> (name = ''data'' \<or> name = ''textContent'') then None
      else p)"

text \<open>\<open>document.createTextNode(data)\<close>: the new node's reference and the new host.\<close>

definition document_createTextNode :: "string \<Rightarrow> host \<Rightarrow> nat \<times> host" where
  "document_createTextNode data h =
     (length (nodes h),
      h\<lparr>nodes := nodes h @ [\<lparr>kind = TextNode, assigned = [], payload = Some data,
                              childNodes = []\<rparr>],
        events := events h @ [CreateTextNode (length (nodes h)) data]\<rparr>)"

text \<open>\<open>document.createElement(tag)\<close>.\<close>

definition document_createElement :: "string \<Rightarrow> host \<Rightarrow> nat \<times> host" where
  "document_createElement tag h =
     (length (nodes h),
      h\<lparr>nodes := nodes h @ [\<lparr>kind = ElementNode tag, assigned = [], payload = None,
                              childNodes = []\<rparr>],
        events := events h @ [CreateElement (length (nodes h)) tag]\<rparr>)"

text \<open>
  The assignment \<open>domNode[name] = v\<close>: the value is on record as assigned, and a text
  node's payload follows an assignment to \<open>nodeValue\<close>.
\<close>

definition set_property :: "nat \<Rightarrow> string \<Rightarrow> jsval \<Rightarrow> host \<Rightarrow> host" where
  "set_property domNode name v h =
     h\<lparr>nodes := (nodes h)[domNode := (nodes h ! domNode)
                    \<lparr>assigned := AList.update name v (assigned (nodes h ! domNode)),
                     payload := payload_after (kind (nodes h ! domNode)) name v
                                  (payload (nodes h ! domNode))\<rparr>],
       events := events h @ [SetProperty domNode name v]\<rparr>"

text \<open>\<open>container.appendChild(domNode)\<close>, for a node that has no parent yet.\<close>

definition appendChild :: "nat \<Rightarrow> nat \<Rightarrow> host \<Rightarrow> host" where
  "appendChild container domNode h =
     h\<lparr>nodes := (nodes h)[container := (nodes h ! container)
                    \<lparr>childNodes := childNodes (nodes h ! container) @ [domNode]\<rparr>],
       events := events h @ [AppendChild container domNode]\<rparr>"

text \<open>The assignment \<open>rootElement.innerHTML = ""\<close>: the node loses all its children.\<close>

definition clear_innerHTML :: "nat \<Rightarrow> host \<Rightarrow> host" where
  "clear_innerHTML rootElement h =
     h\<lparr>nodes := (nodes h)[rootElement := (nodes h ! rootElement)\<lparr>childNodes := []\<rparr>],
       events := events h @ [ClearChildren rootElement]\<rparr>"

text \<open>\<open>console.log(msg)\<close>.\<close>

definition console_log :: "string \<Rightarrow> host \<Rightarrow> host" where
  "console_log msg h = h\<lparr>events := events h @ [ConsoleLog msg]\<rparr>"

section \<open>Materializer\<close>

text \<open>
  \<open>render(element, container)\<close>, gl.js lines 31-50: create the node, assign the
  properties, render the children into the node, append the node to the container.
\<close>

fun render :: "vnode \<Rightarrow> nat \<Rightarrow> host \<Rightarrow> host" where
  "render (VNode t ps cs) container h =
     (let (domNode, h1) = (if t = ''TEXT_ELEMENT'' then document_createTextNode '''' h
                           else document_createElement t h);
          h2 = foldl (\<lambda>h name. if name \<noteq> ''children''
                                then set_property domNode name (lookup ps name) h else h)
                 h1 (map fst ps);
          h3 = foldl (\<lambda>h child. render child domNode h) h2 cs
      in appendChild container domNode h3)"

subsection \<open>What a materialization looks like\<close>

text \<open>
  The record of assignments of a host node that started with the record \<open>p0\<close>, and the
  payload of a node of kind \<open>k\<close> that started with the payload \<open>d0\<close>, after the
  assignments of the loop over \<open>Object.keys(element.props)\<close>.
\<close>

definition assign_props ::
  "(string \<times> jsval) list \<Rightarrow> (string \<times> jsval) list \<Rightarrow> (string \<times> jsval) list" where
  "assign_props ps p0 =
     foldl (\<lambda>p name. if name \<noteq> ''children'' then AList.update name (lookup ps name) p else p)
       p0 (map fst ps)"

definition assign_payload ::
  "hkind \<Rightarrow> (string \<times> jsval) list \<Rightarrow> string option \<Rightarrow> string option" where
  "assign_payload k ps d0 =
     foldl (\<lambda>d name. if name \<noteq> ''children'' then payload_after k name (lookup ps name) d else d)
       d0 (map fst ps)"

text \<open>
  The host node that the root of a tree has become when \<open>render\<close> returns: created as
  the type asks, with the attributes assigned, and with the children \<open>kids\<close>.
\<close>

definition new_node :: "string \<Rightarrow> (string \<times> jsval) list \<Rightarrow> nat list \<Rightarrow> hnode" where
  "new_node t ps kids =
     \<lparr>kind = (if t = ''TEXT_ELEMENT'' then TextNode else ElementNode t),
      assigned = assign_props ps [],
      payload = assign_payload (if t = ''TEXT_ELEMENT'' then TextNode else ElementNode t) ps
                  (if t = ''TEXT_ELEMENT'' then Some '''' else None),
      childNodes = kids\<rparr>"

text \<open>
  References are handed out in creation order, so a tree rendered when the store holds
  \<open>n\<close> nodes takes the references \<open>n, ..., n + vsize v - 1\<close>, the root first.
  \<open>child_ids m cs\<close> are the references of the roots of the children \<open>cs\<close>, the first
  of which is created at \<open>m\<close>; \<open>layout v n\<close> is the stretch of store that the tree
  \<open>v\<close> fills.
\<close>

fun child_ids :: "nat \<Rightarrow> vnode list \<Rightarrow> nat list" where
  "child_ids m [] = []"
| "child_ids m (c # cs) = m # child_ids (m + vsize c) cs"

fun layout :: "vnode \<Rightarrow> nat \<Rightarrow> hnode list"
  and layouts :: "vnode list \<Rightarrow> nat \<Rightarrow> hnode list" where
  "layout (VNode t ps cs) n = new_node t ps (child_ids (Suc n) cs) # layouts cs (Suc n)"
| "layouts [] m = []"
| "layouts (c # cs) m = layout c m @ layouts cs (m + vsize c)"

text \<open>
  The ordering guarantee of the specification, as a trace: the calls that rendering \<open>v\<close>
  into \<open>container\<close> makes on the host when the next free reference is \<open>n\<close>. The node
  is created and configured, then each child in turn is rendered in full into the node,
  and only then is the node appended to its container.
\<close>

fun render_events :: "vnode \<Rightarrow> nat \<Rightarrow> nat \<Rightarrow> event list"
  and children_events :: "vnode list \<Rightarrow> nat \<Rightarrow> nat \<Rightarrow> event list" where
  "render_events (VNode t ps cs) container n =
     (if t = ''TEXT_ELEMENT'' then CreateTextNode n '''' else CreateElement n t)
     # map (\<lambda>name. SetProperty n name (lookup ps name))
         (filter (\<lambda>name. name \<noteq> ''children'') (map fst ps))
     @ children_events cs n (Suc n)
     @ [AppendChild container n]"
| "children_events [] parent m = []"
| "children_events (c # cs) parent m =
     render_events c parent m @ children_events cs parent (m + vsize c)"

text \<open>
  Host node \<open>i\<close> is the materialization of the VirtualNode: it has the kind that the
  type asks for, every attribute but \<open>children\<close> is assigned on it, and its children
  are, in order, the materializations of the VirtualNode's children.
\<close>

fun materialized :: "host \<Rightarrow> nat \<Rightarrow> vnode \<Rightarrow> bool" where
  "materialized h i (VNode t ps cs) \<longleftrightarrow>
     i < length (nodes h)
     \<and> kind (nodes h ! i) = (if t = ''TEXT_ELEMENT'' then TextNode else ElementNode t)
     \<and> (\<forall>name \<in> set (map fst ps). name \<noteq> ''children'' \<longrightarrow>
            map_of (assigned (nodes h ! i)) name = Some (lookup ps name))
     \<and> list_all2 (materialized h) (childNodes (nodes h ! i)) cs"

section \<open>State container\<close>

text \<open>
  What a callback throws is a JavaScript value. The reducer either returns the next state
  or throws.
\<close>

datatype error = Thrown jsval

text \<open>\<open>class Store\<close>, gl.js lines 54-73.\<close>

record ('s, 'a, 'l) store =
  state :: 's
  reducer :: "'s \<Rightarrow> 'a \<Rightarrow> error + 's"
  listeners :: "'l list"

definition Store :: "('s \<Rightarrow> 'a \<Rightarrow> error + 's) \<Rightarrow> 's \<Rightarrow> ('s, 'a, 'l) store" where
  "Store r initialState = \<lparr>state = initialState, reducer = r, listeners = []\<rparr>"

definition getState :: "('s, 'a, 'l) store \<Rightarrow> 's" where
  "getState st = state st"

definition subscribe :: "'l \<Rightarrow> ('s, 'a, 'l) store \<Rightarrow> ('s, 'a, 'l) store" where
  "subscribe listener st = st\<lparr>listeners := listeners st @ [listener]\<rparr>"

text \<open>
  A listener is a closure: calling it may read and change everything it can reach, that
  is the store and the environment \<open>'e\<close> around it, and it returns normally or throws.
  \<open>invoke\<close> says what calling a listener does.
\<close>

type_synonym ('s, 'a, 'l, 'e) world = "('s, 'a, 'l) store \<times> 'e"

type_synonym ('s, 'a, 'l, 'e) invoke =
  "'l \<Rightarrow> ('s, 'a, 'l, 'e) world \<Rightarrow> error option \<times> ('s, 'a, 'l, 'e) world"

text \<open>
  \<open>this.listeners.forEach(listener => listener())\<close>. \<open>forEach\<close> fixes the number of
  elements it visits when it starts, and \<open>push\<close> is the only change the program makes to
  the array, so the elements visited are the listeners registered when it starts. A
  listener that throws ends the loop. The second component of the result lists the calls
  made: the listener and what \<open>getState()\<close> returned when it was entered.
\<close>

fun forEach_listener ::
  "('s, 'a, 'l, 'e) invoke \<Rightarrow> 'l list \<Rightarrow> ('s, 'a, 'l, 'e) world
     \<Rightarrow> error option \<times> ('l \<times> 's) list \<times> ('s, 'a, 'l, 'e) world" where
  "forEach_listener invoke [] w = (None, [], w)"
| "forEach_listener invoke (listener # rest) w =
     (case invoke listener w of
        (Some err, w') \<Rightarrow> (Some err, [(listener, getState (fst w))], w')
      | (None, w') \<Rightarrow>
          (case forEach_listener invoke rest w' of
             (r, calls, w'') \<Rightarrow> (r, (listener, getState (fst w)) # calls, w'')))"

text \<open>\<open>dispatch(action)\<close>, gl.js lines 65-68.\<close>

definition dispatch ::
  "('s, 'a, 'l, 'e) invoke \<Rightarrow> 'a \<Rightarrow> ('s, 'a, 'l, 'e) world
     \<Rightarrow> error option \<times> ('l \<times> 's) list \<times> ('s, 'a, 'l, 'e) world" where
  "dispatch invoke action w =
     (case reducer (fst w) (state (fst w)) action of
        Inl err \<Rightarrow> (Some err, [], w)
      | Inr s' \<Rightarrow> forEach_listener invoke (listeners (fst w)) ((fst w)\<lparr>state := s'\<rparr>, snd w))"

section \<open>Application bootstrap\<close>

text \<open>
  The listeners of an application: the \<open>renderApp\<close> closure of \<open>createApp\<close>, which
  holds the root component and the root element, or a callback of the application's own.
  The root component is a function of the state that returns a VirtualNode.
\<close>

datatype ('s, 'u) listener = RenderApp "'s \<Rightarrow> vnode" nat | Handler 'u

text \<open>\<open>renderApp()\<close>, gl.js lines 78-81.\<close>

definition renderApp ::
  "('s \<Rightarrow> vnode) \<Rightarrow> nat \<Rightarrow> ('s, 'a, 'l, host) world \<Rightarrow> ('s, 'a, 'l, host) world" where
  "renderApp rootComponent rootElement w =
     (fst w, render (rootComponent (getState (fst w))) rootElement
               (clear_innerHTML rootElement (snd w)))"

text \<open>Calling a listener of an application.\<close>

fun call ::
  "('u \<Rightarrow> ('s, 'a, ('s, 'u) listener, host) world
        \<Rightarrow> error option \<times> ('s, 'a, ('s, 'u) listener, host) world)
     \<Rightarrow> ('s, 'a, ('s, 'u) listener, host) invoke" where
  "call handler (RenderApp rootComponent rootElement) w =
     (None, renderApp rootComponent rootElement w)"
| "call handler (Handler u) w = handler u w"

text \<open>\<open>createApp(rootComponent, rootElement, store)\<close>, gl.js lines 77-87.\<close>

definition createApp ::
  "('s \<Rightarrow> vnode) \<Rightarrow> nat \<Rightarrow> ('s, 'a, ('s, 'u) listener, host) world
     \<Rightarrow> ('s, 'a, ('s, 'u) listener, host) world" where
  "createApp rootComponent rootElement w =
     (let st = subscribe (RenderApp rootComponent rootElement) (fst w);
          h1 = console_log ''GL.JS Micro-Framework'' (snd w);
          h2 = console_log ''Initializing application...'' h1
      in renderApp rootComponent rootElement (st, h2))"

section \<open>Example programs\<close>

text \<open>
  A counter: the state is the count, an action is the amount to add, and the action 0 is
  rejected. Its view is a heading that shows the count. \<open>logging\<close> is an observer
  that writes down who was called and what \<open>getState()\<close> gave.
\<close>

abbreviation counter_reducer :: "int \<Rightarrow> int \<Rightarrow> error + int" where
  "counter_reducer \<equiv> \<lambda>s a. if a = 0 then Inl (Thrown (JStr ''no such action'')) else Inr (s + a)"

abbreviation logging :: "(int, int, string, (string \<times> int) list) invoke" where
  "logging \<equiv> \<lambda>l w. (None, (fst w, snd w @ [(l, getState (fst w))]))"

abbreviation counter_view :: "int \<Rightarrow> vnode" where
  "counter_view \<equiv> \<lambda>s. VNode ''h1'' [] [VNode ''TEXT_ELEMENT'' [(''nodeValue'', JNum s)] []]"

abbreviation no_handler ::
  "string \<Rightarrow> (int, int, (int, string) listener, host) world
     \<Rightarrow> error option \<times> (int, int, (int, string) listener, host) world" where
  "no_handler \<equiv> \<lambda>u w. (None, w)"

abbreviation root_only :: host where
  "root_only \<equiv>
     \<lparr>nodes = [\<lparr>kind = ElementNode ''div'', assigned = [], payload = None, childNodes = []\<rparr>],
      events = []\<rparr>"

abbreviation sample_tree :: vnode where
  "sample_tree \<equiv>
     VNode ''ul'' [(''id'', JStr ''a'')]
       [VNode ''li'' [] [VNode ''TEXT_ELEMENT'' [(''nodeValue'', JStr ''hi'')] []],
        VNode ''li'' [] []]"

section \<open>Properties of the node builder\<close>

lemma flat_concat: "flat children = concat (map unwrap_once children)"
  by (induction children rule: flat.induct) simp_all

lemma typeof_object_iff:
  "typeof v = ''object'' \<longleftrightarrow> v = JNull \<or> (\<exists>xs. v = JArr xs) \<or> (\<exists>ps. v = JObj ps)"
  by (cases v) simp_all

lemma get_children_createElement:
  "get (createElement type props children) ''children'' =
     JArr (map (\<lambda>child. if typeof child = ''object'' then child else createTextElement child)
            (flat children))"
  by (simp add: createElement_def lookup_def)

lemma get_type_createElement: "get (createElement type props children) ''type'' = type"
  by (simp add: createElement_def lookup_def)

lemma get_props_createElement:
  "get (createElement type props children) ''props'' = (if truthy props then props else JObj [])"
  by (simp add: createElement_def lookup_def)

lemma typeof_obj_of: "typeof (obj_of v) = ''object''"
  by (cases v) simp

lemma flat_obj_of: "flat (map obj_of cs) = map obj_of cs"
proof (induction cs)
  case Nil
  show ?case by simp
next
  case (Cons c cs)
  then show ?case by (cases c) simp
qed

text \<open>
  Built from a type name, an attribute object and VirtualNodes, the result of
  \<open>createElement\<close> is the VirtualNode with these parts.
\<close>

lemma createElement_obj_of:
  "createElement (JStr t) (JObj ps) (map obj_of cs) = obj_of (VNode t ps cs)"
  by (simp add: createElement_def flat_obj_of typeof_obj_of)

lemma createTextElement_obj_of:
  "createTextElement v = obj_of (VNode ''TEXT_ELEMENT'' [(''nodeValue'', v)] [])"
  by (simp add: createTextElement_def)

text \<open>The view of the counter is what the builder makes of a heading and the count.\<close>

lemma counter_view_built:
  "createElement (JStr ''h1'') JNull [JNum s] = obj_of (counter_view s)"
  by (simp add: createElement_def createTextElement_def)

text \<open>
  C4, as the code has it. For every value \<open>v\<close> whose \<open>typeof\<close> is not \<open>"object"\<close>
  (a string, a number, a boolean, \<open>undefined\<close>, a function; not \<open>null\<close>),
  \<open>createElement\<close> applied to \<open>v\<close> as a lone content item yields a node with exactly
  one child; the child's type is the text sentinel, its content is empty, and the payload
  stored under \<open>nodeValue\<close> is \<open>v\<close> itself, not converted: it is the string form of
  \<open>v\<close> when \<open>v\<close> is a string.
\<close>

theorem createElement_lone_primitive:
  assumes "typeof v \<noteq> ''object''"
  shows "get (createElement type props [v]) ''children'' = JArr [createTextElement v]
       \<and> get (createTextElement v) ''type'' = JStr ''TEXT_ELEMENT''
       \<and> get (createTextElement v) ''children'' = JArr []
       \<and> get (createTextElement v) ''props'' = JObj [(''nodeValue'', v)]
       \<and> get (get (createTextElement v) ''props'') ''nodeValue'' = v
       \<and> ((\<exists>s. v = JStr s) \<longrightarrow> v = JStr (string_form v))"
  using assms
  by (cases v) (simp_all add: get_children_createElement createTextElement_def lookup_def)

theorem createElement_lone_primitive_witness:
  "get (createElement (JStr ''p'') JNull [JStr ''hi'']) ''children'' = JArr [createTextElement (JStr ''hi'')]
   \<and> get (get (createTextElement (JStr ''hi'')) ''props'') ''nodeValue'' = JStr (string_form (JStr ''hi''))
   \<and> get (createElement (JStr ''p'') JNull [JNum 5]) ''children'' = JArr [createTextElement (JNum 5)]
   \<and> get (get (createTextElement (JNum 5)) ''props'') ''nodeValue'' = JNum 5"
  using createElement_lone_primitive [of "JStr ''hi''" "JStr ''p''" JNull]
        createElement_lone_primitive [of "JNum 5" "JStr ''p''" JNull]
  by (simp add: lookup_def)

text \<open>
  C4 as stated fails: the payload of a number is the number, not its string form, and
  \<open>null\<close>, a primitive value, is not wrapped at all.
\<close>

theorem createElement_payload_counterexample:
  "get (createElement (JStr ''p'') JNull [JNum 5]) ''children'' = JArr [createTextElement (JNum 5)]
   \<and> get (get (createTextElement (JNum 5)) ''props'') ''nodeValue'' = JNum 5
   \<and> string_form (JNum 5) = ''5''
   \<and> JNum 5 \<noteq> JStr (string_form (JNum 5))
   \<and> get (createElement (JStr ''p'') JNull [JNull]) ''children'' = JArr [JNull]"
  by (simp add: get_children_createElement createTextElement_def lookup_def)

text \<open>
  C5. For every mix of individual items and nested sequences passed as content
  arguments, the content of the result is the order-preserving concatenation of the
  arguments with exactly one level of un-nesting, each item then normalized; an item that
  is an object, such as a VirtualNode or a sequence nested more deeply, stands in the
  content as it is.
\<close>

theorem createElement_flattens_one_level:
  "get (createElement type props children) ''children'' =
     JArr (map (\<lambda>child. if typeof child = ''object'' then child else createTextElement child)
            (concat (map unwrap_once children)))"
  by (simp add: get_children_createElement flat_concat)

theorem createElement_flattens_one_level_witness:
  "get (createElement (JStr ''ul'') JNull
          [JStr ''a'',
           JArr [obj_of (VNode ''li'' [] []), JArr [JStr ''deep'']],
           obj_of (VNode ''hr'' [] [])]) ''children'' =
     JArr [createTextElement (JStr ''a''),
           obj_of (VNode ''li'' [] []),
           JArr [JStr ''deep''],
           obj_of (VNode ''hr'' [] [])]"
  using createElement_flattens_one_level
          [of "JStr ''ul''" JNull
              "[JStr ''a'', JArr [obj_of (VNode ''li'' [] []), JArr [JStr ''deep'']],
                obj_of (VNode ''hr'' [] [])]"]
  by simp

text \<open>
  C10. A flattened content item is wrapped into a text node only when its \<open>typeof\<close> is
  not \<open>"object"\<close>; an item of object type, \<open>null\<close> and objects that are no
  VirtualNodes included, stands in the content unchanged.
\<close>

theorem createElement_object_items_pass_through:
  assumes "i < length (flat children)"
      and "get (createElement type props children) ''children'' = JArr cs"
      and "item = flat children ! i"
  shows "length cs = length (flat children)
       \<and> cs ! i = (if typeof item = ''object'' then item else createTextElement item)
       \<and> (typeof item = ''object'') = (item = JNull \<or> (\<exists>xs. item = JArr xs) \<or> (\<exists>ps. item = JObj ps))"
  using assms by (auto simp add: get_children_createElement typeof_object_iff)

theorem createElement_object_items_pass_through_witness:
  "get (createElement (JStr ''div'') JUndefined [JNull]) ''children'' = JArr [JNull]
   \<and> get (createElement (JStr ''div'') JUndefined [JArr [JObj [(''x'', JNum 1)], JNum 2]]) ''children''
       = JArr [JObj [(''x'', JNum 1)], createTextElement (JNum 2)]"
  using createElement_object_items_pass_through
          [of 0 "[JNull]" "JStr ''div''" JUndefined "[JNull]" JNull]
        createElement_object_items_pass_through
          [of 0 "[JArr [JObj [(''x'', JNum 1)], JNum 2]]" "JStr ''div''" JUndefined
              "[JObj [(''x'', JNum 1)], createTextElement (JNum 2)]" "JObj [(''x'', JNum 1)]"]
  by (simp add: get_children_createElement)

section \<open>Properties of the materializer\<close>

lemma length_layout: "length (layout v n) = vsize v"
  and length_layouts: "length (layouts cs m) = sum_list (map vsize cs)"
  by (induction v n and cs m rule: layout_layouts.induct) simp_all

lemma length_child_ids: "length (child_ids m cs) = length cs"
  by (induction cs arbitrary: m) simp_all

lemma new_node_fields [simp]:
  "kind (new_node t ps kids) = (if t = ''TEXT_ELEMENT'' then TextNode else ElementNode t)"
  "assigned (new_node t ps kids) = assign_props ps []"
  "payload (new_node t ps kids) =
     assign_payload (if t = ''TEXT_ELEMENT'' then TextNode else ElementNode t) ps
       (if t = ''TEXT_ELEMENT'' then Some '''' else None)"
  "childNodes (new_node t ps kids) = kids"
  by (simp_all add: new_node_def)

text \<open>The loop over the property names changes the new node only.\<close>

lemma props_loop:
  "n < length (nodes h) \<Longrightarrow>
   foldl (\<lambda>h name. if name \<noteq> ''children'' then set_property n name (lookup ps name) h else h) h ks =
   h\<lparr>nodes := (nodes h)[n := (nodes h ! n)
          \<lparr>assigned :=
             foldl (\<lambda>p name. if name \<noteq> ''children'' then AList.update name (lookup ps name) p else p)
               (assigned (nodes h ! n)) ks,
           payload :=
             foldl (\<lambda>d name. if name \<noteq> ''children''
                               then payload_after (kind (nodes h ! n)) name (lookup ps name) d else d)
               (payload (nodes h ! n)) ks\<rparr>],
     events := events h @ map (\<lambda>name. SetProperty n name (lookup ps name))
                            (filter (\<lambda>name. name \<noteq> ''children'') ks)\<rparr>"
proof (induction ks arbitrary: h)
  case Nil
  then show ?case by simp
next
  case (Cons k ks)
  show ?case
  proof (cases "k = ''children''")
    case True
    then show ?thesis using Cons by simp
  next
    case False
    have len: "n < length (nodes (set_property n k (lookup ps k) h))"
      using Cons.prems by (simp add: set_property_def)
    have kd: "kind (nodes (set_property n k (lookup ps k) h) ! n) = kind (nodes h ! n)"
      using Cons.prems by (simp add: set_property_def)
    show ?thesis
      using False Cons.prems
      apply (simp add: Cons.IH[OF len])
      apply (simp only: kd)
      apply (simp add: set_property_def)
      done
  qed
qed

text \<open>
  The loop over the children, given what \<open>render\<close> does on each child: the references of
  the children's roots are appended to the node, in order, and the store grows by the
  children's trees.
\<close>

lemma children_loop:
  assumes IH: "\<And>child c h. child \<in> set cs \<Longrightarrow> c < length (nodes h) \<Longrightarrow>
     render child c h =
       \<lparr>nodes = (nodes h)[c := (nodes h ! c)\<lparr>childNodes := childNodes (nodes h ! c) @ [length (nodes h)]\<rparr>]
                 @ layout child (length (nodes h)),
        events = events h @ render_events child c (length (nodes h))\<rparr>"
    and n: "n < length (nodes h)"
  shows "foldl (\<lambda>h child. render child n h) h cs =
     \<lparr>nodes = (nodes h)[n := (nodes h ! n)\<lparr>childNodes := childNodes (nodes h ! n) @ child_ids (length (nodes h)) cs\<rparr>]
               @ layouts cs (length (nodes h)),
      events = events h @ children_events cs n (length (nodes h))\<rparr>"
  using assms
proof (induction cs arbitrary: h)
  case Nil
  then show ?case by simp
next
  case (Cons c cs)
  let ?h1 = "render c n h"
  have r: "?h1 = \<lparr>nodes = (nodes h)[n := (nodes h ! n)\<lparr>childNodes := childNodes (nodes h ! n) @ [length (nodes h)]\<rparr>]
                 @ layout c (length (nodes h)),
        events = events h @ render_events c n (length (nodes h))\<rparr>"
    using Cons.prems by simp
  have len: "length (nodes ?h1) = length (nodes h) + vsize c"
    by (simp add: r length_layout)
  have n1: "n < length (nodes ?h1)" using Cons.prems(2) len by simp
  have step: "foldl (\<lambda>h child. render child n h) ?h1 cs =
     \<lparr>nodes = (nodes ?h1)[n := (nodes ?h1 ! n)\<lparr>childNodes := childNodes (nodes ?h1 ! n) @ child_ids (length (nodes ?h1)) cs\<rparr>]
               @ layouts cs (length (nodes ?h1)),
      events = events ?h1 @ children_events cs n (length (nodes ?h1))\<rparr>"
    using Cons.IH[OF _ n1] Cons.prems(1) by simp
  have "foldl (\<lambda>h child. render child n h) h (c # cs) = foldl (\<lambda>h child. render child n h) ?h1 cs"
    by simp
  also have "\<dots> = \<lparr>nodes = (nodes h)[n := (nodes h ! n)\<lparr>childNodes := childNodes (nodes h ! n) @ child_ids (length (nodes h)) (c # cs)\<rparr>]
               @ layouts (c # cs) (length (nodes h)),
      events = events h @ children_events (c # cs) n (length (nodes h))\<rparr>"
    unfolding step len using Cons.prems(2)
    by (simp add: r nth_append list_update_append)
  finally show ?case .
qed

text \<open>
  What \<open>render\<close> does, in one equation: the container gains the reference of the new
  node as its last child, the store grows by the layout of the tree, and the calls of the
  trace are made.
\<close>

lemma render_eq:
  "c < length (nodes h) \<Longrightarrow>
   render v c h =
     \<lparr>nodes = (nodes h)[c := (nodes h ! c)\<lparr>childNodes := childNodes (nodes h ! c) @ [length (nodes h)]\<rparr>]
               @ layout v (length (nodes h)),
      events = events h @ render_events v c (length (nodes h))\<rparr>"
proof (induction v arbitrary: c h)
  case (VNode t ps cs)
  let ?n = "length (nodes h)"
  obtain domNode h1 where c1: "(if t = ''TEXT_ELEMENT'' then document_createTextNode [] h
                       else document_createElement t h) = (domNode, h1)"
    by (cases "(if t = ''TEXT_ELEMENT'' then document_createTextNode [] h
                       else document_createElement t h)")
  have d: "domNode = ?n"
    and h1: "h1 = \<lparr>nodes = nodes h @ [\<lparr>kind = (if t = ''TEXT_ELEMENT'' then TextNode else ElementNode t),
                    assigned = [],
                    payload = (if t = ''TEXT_ELEMENT'' then Some [] else None),
                    childNodes = []\<rparr>],
                 events = events h @ [if t = ''TEXT_ELEMENT'' then CreateTextNode ?n [] else CreateElement ?n t]\<rparr>"
    using c1 by (auto simp: document_createTextNode_def document_createElement_def split: if_splits)
  let ?h2 = "foldl (\<lambda>h name. if name \<noteq> ''children'' then set_property ?n name (lookup ps name) h else h)
                 h1 (map fst ps)"
  have n1: "?n < length (nodes h1)" by (simp add: h1)
  have k1: "kind (nodes h1 ! ?n) = (if t = ''TEXT_ELEMENT'' then TextNode else ElementNode t)"
    by (simp add: h1)
  have h2: "?h2 = \<lparr>nodes = nodes h @ [new_node t ps []],
                 events = events h @ (if t = ''TEXT_ELEMENT'' then CreateTextNode ?n [] else CreateElement ?n t)
                    # map (\<lambda>name. SetProperty ?n name (lookup ps name)) (filter (\<lambda>name. name \<noteq> ''children'') (map fst ps))\<rparr>"
    unfolding props_loop[OF n1] k1
    by (simp add: h1 assign_props_def assign_payload_def new_node_def)
  let ?h3 = "foldl (\<lambda>h child. render child ?n h) ?h2 cs"
  have n2: "?n < length (nodes ?h2)" by (simp add: h2)
  have len2: "length (nodes ?h2) = Suc ?n" by (simp add: h2)
  have h3: "?h3 = \<lparr>nodes = (nodes ?h2)[?n := (nodes ?h2 ! ?n)\<lparr>childNodes := childNodes (nodes ?h2 ! ?n) @ child_ids (length (nodes ?h2)) cs\<rparr>]
               @ layouts cs (length (nodes ?h2)),
      events = events ?h2 @ children_events cs ?n (length (nodes ?h2))\<rparr>"
    by (rule children_loop[OF _ n2]) (rule VNode.IH)
  have "render (VNode t ps cs) c h = appendChild c ?n ?h3"
    using c1 d by simp
  also have "\<dots> = \<lparr>nodes = (nodes h)[c := (nodes h ! c)\<lparr>childNodes := childNodes (nodes h ! c) @ [?n]\<rparr>]
               @ layout (VNode t ps cs) ?n,
      events = events h @ render_events (VNode t ps cs) c ?n\<rparr>"
    unfolding h3 len2 using VNode.prems
    by (simp add: h2 appendChild_def nth_append list_update_append new_node_def)
  finally show ?case .
qed

declare render.simps [simp del]

lemma render_nodes:
  "c < length (nodes h) \<Longrightarrow>
   nodes (render v c h) =
     (nodes h)[c := (nodes h ! c)\<lparr>childNodes := childNodes (nodes h ! c) @ [length (nodes h)]\<rparr>]
     @ layout v (length (nodes h))"
  by (simp add: render_eq)

lemma render_events_eq:
  "c < length (nodes h) \<Longrightarrow> events (render v c h) = events h @ render_events v c (length (nodes h))"
  by (simp add: render_eq)

lemma render_container:
  "c < length (nodes h) \<Longrightarrow>
   nodes (render v c h) ! c = (nodes h ! c)\<lparr>childNodes := childNodes (nodes h ! c) @ [length (nodes h)]\<rparr>"
  by (simp add: render_nodes nth_append)

lemma render_other:
  "c < length (nodes h) \<Longrightarrow> i < length (nodes h) \<Longrightarrow> i \<noteq> c \<Longrightarrow> nodes (render v c h) ! i = nodes h ! i"
  by (simp add: render_nodes nth_append)

lemma render_root:
  "c < length (nodes h) \<Longrightarrow>
   nodes (render (VNode t ps cs) c h) ! length (nodes h) =
     new_node t ps (child_ids (Suc (length (nodes h))) cs)"
  by (simp add: render_nodes nth_append)

lemma map_of_assign_loop:
  "map_of (foldl (\<lambda>p name. if name \<noteq> ''children'' then AList.update name (lookup ps name) p else p) p0 ks) k =
     (if k \<noteq> ''children'' \<and> k \<in> set ks then Some (lookup ps k) else map_of p0 k)"
  by (induction ks arbitrary: p0) (auto simp: update_conv')

lemma map_of_assign_props:
  "map_of (assign_props ps p0) k =
     (if k \<noteq> ''children'' \<and> k \<in> fst ` set ps then Some (lookup ps k) else map_of p0 k)"
  by (simp add: assign_props_def map_of_assign_loop)

lemma lookup_map_of: "map_of ps k = Some v \<Longrightarrow> lookup ps k = v"
  by (simp add: lookup_def)

lemma materialized_children:
  assumes IH: "\<And>child pre post h. child \<in> set cs \<Longrightarrow> nodes h = pre @ layout child (length pre) @ post
                 \<Longrightarrow> materialized h (length pre) child"
    and "nodes h = pre @ layouts cs (length pre) @ post"
  shows "list_all2 (materialized h) (child_ids (length pre) cs) cs"
  using assms
proof (induction cs arbitrary: pre)
  case Nil
  then show ?case by simp
next
  case (Cons c cs)
  have a: "nodes h = pre @ layout c (length pre) @ (layouts cs (length pre + vsize c) @ post)"
    using Cons.prems(2) by simp
  have b: "nodes h = (pre @ layout c (length pre)) @ layouts cs (length (pre @ layout c (length pre))) @ post"
    using Cons.prems(2) by (simp add: length_layout)
  have "materialized h (length pre) c"
    using Cons.prems(1)[OF _ a] by simp
  moreover have "list_all2 (materialized h) (child_ids (length (pre @ layout c (length pre))) cs) cs"
    using Cons.IH[OF _ b] Cons.prems(1) by simp
  ultimately show ?case by (simp add: length_layout)
qed

text \<open>A stretch of store that is the layout of a tree holds the materialization of the tree.\<close>

lemma materialized_layout:
  "nodes h = pre @ layout v (length pre) @ post \<Longrightarrow> materialized h (length pre) v"
proof (induction v arbitrary: pre post h)
  case (VNode t ps cs)
  let ?node = "new_node t ps (child_ids (Suc (length pre)) cs)"
  have eq: "nodes h = (pre @ [?node]) @ layouts cs (length (pre @ [?node])) @ post"
    using VNode.prems by simp
  have nth: "nodes h ! length pre = ?node"
    using VNode.prems by (simp add: nth_append)
  have kids: "list_all2 (materialized h) (child_ids (length (pre @ [?node])) cs) cs"
    by (rule materialized_children[OF _ eq]) (rule VNode.IH)
  have len: "length pre < length (nodes h)"
    using VNode.prems by simp
  show ?case
    using kids len by (simp add: nth map_of_assign_props new_node_def)
qed

lemma render_materialized:
  assumes "c < length (nodes h)"
  shows "materialized (render v c h) (length (nodes h)) v"
proof -
  let ?pre = "(nodes h)[c := (nodes h ! c)\<lparr>childNodes := childNodes (nodes h ! c) @ [length (nodes h)]\<rparr>]"
  have "nodes (render v c h) = ?pre @ layout v (length ?pre) @ []"
    using assms by (simp add: render_nodes)
  from materialized_layout[OF this] show ?thesis by simp
qed

text \<open>The trace of the children is the traces of the children, one after the other.\<close>

lemma children_events_concat:
  "children_events cs p m =
     concat (map (\<lambda>(child, i). render_events child p i) (zip cs (child_ids m cs)))"
  by (induction cs arbitrary: m) simp_all

lemma last_render_events: "last (render_events v c n) = AppendChild c n"
  by (cases v) simp

lemma hd_render_events:
  "hd (render_events (VNode t ps cs) c n) =
     (if t = ''TEXT_ELEMENT'' then CreateTextNode n '''' else CreateElement n t)"
  by simp

lemma set_property_refs:
  "SetProperty i k x \<in> set (render_events v c n) \<Longrightarrow> n \<le> i \<and> k \<noteq> ''children''"
  "SetProperty i k x \<in> set (children_events cs p m) \<Longrightarrow> m \<le> i \<and> k \<noteq> ''children''"
  by (induction v c n and cs p m rule: render_events_children_events.induct)
     (auto split: if_splits)

text \<open>
  C3. For every VirtualNode whose content has length \<open>k\<close>, \<open>render\<close> appends exactly
  one host node to the parent and changes no other node that was there; the new node
  has exactly \<open>k\<close> children, which are the materializations of the content in the same
  order; and the calls are made in this order: the node is created and configured, each
  child in turn is rendered in full into the node, the rendering of a child ending with
  its being appended to the node, and the node is appended to the parent last.
\<close>

theorem render_appends_one_node:
  assumes "container < length (nodes h)"
      and "h' = render (VNode t ps cs) container h"
      and "n = length (nodes h)"
      and "kids = childNodes (nodes h' ! n)"
  shows "childNodes (nodes h' ! container) = childNodes (nodes h ! container) @ [n]
       \<and> (\<forall>i < length (nodes h). i \<noteq> container \<longrightarrow> nodes h' ! i = nodes h ! i)
       \<and> length kids = length cs
       \<and> list_all2 (materialized h') kids cs
       \<and> materialized h' n (VNode t ps cs)
       \<and> events h' = events h
            @ [if t = ''TEXT_ELEMENT'' then CreateTextNode n '''' else CreateElement n t]
            @ map (\<lambda>name. SetProperty n name (lookup ps name))
                (filter (\<lambda>name. name \<noteq> ''children'') (map fst ps))
            @ concat (map (\<lambda>(child, i). render_events child n i) (zip cs kids))
            @ [AppendChild container n]
       \<and> (\<forall>(child, i) \<in> set (zip cs kids). last (render_events child n i) = AppendChild n i)
       \<and> events h' = events h @ render_events (VNode t ps cs) container n"
proof -
  have m: "materialized h' n (VNode t ps cs)"
    unfolding assms(2) assms(3) by (rule render_materialized[OF assms(1)])
  have kids: "kids = child_ids (Suc n) cs"
    using assms by (simp add: render_root)
  have ev: "events h' = events h @ render_events (VNode t ps cs) container n"
    using assms by (simp add: render_events_eq)
  have "childNodes (nodes h' ! container) = childNodes (nodes h ! container) @ [n]"
    using assms by (simp add: render_container)
  moreover have "\<forall>i < length (nodes h). i \<noteq> container \<longrightarrow> nodes h' ! i = nodes h ! i"
    using assms by (simp add: render_other)
  moreover have "list_all2 (materialized h') kids cs"
    using m assms(4) by simp
  moreover have "\<forall>(child, i) \<in> set (zip cs kids). last (render_events child n i) = AppendChild n i"
    by (simp add: last_render_events split: prod.splits)
  moreover have "events h' = events h
            @ [if t = ''TEXT_ELEMENT'' then CreateTextNode n '''' else CreateElement n t]
            @ map (\<lambda>name. SetProperty n name (lookup ps name))
                (filter (\<lambda>name. name \<noteq> ''children'') (map fst ps))
            @ concat (map (\<lambda>(child, i). render_events child n i) (zip cs kids))
            @ [AppendChild container n]"
    unfolding ev kids by (simp add: children_events_concat)
  ultimately show ?thesis
    using m ev by (simp add: kids length_child_ids)
qed

lemmas host_ops = document_createTextNode_def document_createElement_def set_property_def
  appendChild_def clear_innerHTML_def console_log_def payload_after_def

theorem render_appends_one_node_witness:
  "0 < length (nodes root_only)
   \<and> render sample_tree 0 root_only
     = \<lparr>nodes = [\<lparr>kind = ElementNode ''div'', assigned = [], payload = None, childNodes = [1]\<rparr>,
                 \<lparr>kind = ElementNode ''ul'', assigned = [(''id'', JStr ''a'')], payload = None, childNodes = [2, 4]\<rparr>,
                 \<lparr>kind = ElementNode ''li'', assigned = [], payload = None, childNodes = [3]\<rparr>,
                 \<lparr>kind = TextNode, assigned = [(''nodeValue'', JStr ''hi'')],
                    payload = Some ''hi'', childNodes = []\<rparr>,
                 \<lparr>kind = ElementNode ''li'', assigned = [], payload = None, childNodes = []\<rparr>],
        events = [CreateElement 1 ''ul'', SetProperty 1 ''id'' (JStr ''a''),
                  CreateElement 2 ''li'',
                  CreateTextNode 3 '''', SetProperty 3 ''nodeValue'' (JStr ''hi''), AppendChild 2 3,
                  AppendChild 1 2,
                  CreateElement 4 ''li'', AppendChild 1 4,
                  AppendChild 0 1]\<rparr>
   \<and> materialized (render sample_tree 0 root_only) 1 sample_tree"
  using render_appends_one_node
    [of 0 root_only "render sample_tree 0 root_only"
        "''ul''" "[(''id'', JStr ''a'')]"
        "[VNode ''li'' [] [VNode ''TEXT_ELEMENT'' [(''nodeValue'', JStr ''hi'')] []], VNode ''li'' [] []]"
        1 "[2, 4]"]
  by (simp add: render.simps host_ops lookup_def)

text \<open>
  C6. For every key of the attributes except \<open>"children"\<close>, the attribute's value is
  assigned onto the created host node under that key: it is the value on the node's
  record for the key after \<open>render\<close>, and the assignments made on the node are exactly
  these. No assignment under the key \<open>"children"\<close> is made on any node, and the
  created node has nothing on record under that name, even when the attributes hold such
  a key.
\<close>

theorem render_assigns_attributes:
  assumes "container < length (nodes h)"
      and "h' = render (VNode t ps cs) container h"
      and "n = length (nodes h)"
  shows "(\<forall>name v. map_of ps name = Some v \<and> name \<noteq> ''children'' \<longrightarrow>
            map_of (assigned (nodes h' ! n)) name = Some v)
       \<and> map_of (assigned (nodes h' ! n)) ''children'' = None
       \<and> (\<forall>name v. SetProperty n name v \<in> set (drop (length (events h)) (events h')) \<longleftrightarrow>
            name \<noteq> ''children'' \<and> map_of ps name = Some v)
       \<and> (\<forall>i v. SetProperty i ''children'' v \<notin> set (drop (length (events h)) (events h')))"
proof -
  have root: "assigned (nodes h' ! n) = assign_props ps []"
    using assms by (simp add: render_root)
  have ev: "drop (length (events h)) (events h') = render_events (VNode t ps cs) container n"
    using assms by (simp add: render_events_eq)
  have dom: "\<And>name. name \<in> fst ` set ps \<longleftrightarrow> (\<exists>v. map_of ps name = Some v)"
    by (metis domIff dom_map_of_conv_image_fst not_Some_eq)
  have a: "\<forall>name v. map_of ps name = Some v \<and> name \<noteq> ''children'' \<longrightarrow>
            map_of (assigned (nodes h' ! n)) name = Some v"
    using dom by (auto simp: root map_of_assign_props lookup_map_of)
  have b: "map_of (assigned (nodes h' ! n)) ''children'' = None"
    by (simp add: root map_of_assign_props)
  have kids: "\<And>name v. SetProperty n name v \<notin> set (children_events cs n (Suc n))"
    using set_property_refs(2) by fastforce
  have c: "\<forall>name v. SetProperty n name v \<in> set (drop (length (events h)) (events h')) \<longleftrightarrow>
            name \<noteq> ''children'' \<and> map_of ps name = Some v"
    unfolding ev using kids dom
    by (auto simp: lookup_map_of image_iff split: if_splits)
  have d: "\<forall>i v. SetProperty i ''children'' v \<notin> set (drop (length (events h)) (events h'))"
    unfolding ev using set_property_refs(1) by blast
  show ?thesis using a b c d by blast
qed

theorem render_assigns_attributes_witness:
  "0 < length (nodes root_only)
   \<and> render (VNode ''div'' [(''a'', JNum 1), (''children'', JStr ''x''), (''b'', JNum 2)] []) 0 root_only
     = \<lparr>nodes = [\<lparr>kind = ElementNode ''div'', assigned = [], payload = None, childNodes = [1]\<rparr>,
                 \<lparr>kind = ElementNode ''div'', assigned = [(''a'', JNum 1), (''b'', JNum 2)], payload = None,
                    childNodes = []\<rparr>],
        events = [CreateElement 1 ''div'', SetProperty 1 ''a'' (JNum 1), SetProperty 1 ''b'' (JNum 2),
                  AppendChild 0 1]\<rparr>
   \<and> map_of (assigned (nodes
        (render (VNode ''div'' [(''a'', JNum 1), (''children'', JStr ''x''), (''b'', JNum 2)] []) 0
           root_only) ! 1)) ''children'' = None"
  using render_assigns_attributes
    [of 0 root_only
        "render (VNode ''div'' [(''a'', JNum 1), (''children'', JStr ''x''), (''b'', JNum 2)] []) 0 root_only"
        "''div''" "[(''a'', JNum 1), (''children'', JStr ''x''), (''b'', JNum 2)]" "[]" 1]
  by (simp add: render.simps host_ops lookup_def)




text \<open>
  A text VirtualNode whose attributes hold none of the names that set the character data
  keeps the empty payload it was created with.
\<close>

lemma assign_payload_unchanged:
  assumes "''nodeValue'' \<notin> set ks" and "''data'' \<notin> set ks" and "''textContent'' \<notin> set ks"
  shows "foldl (\<lambda>d name. if name \<noteq> ''children'' then payload_after k name (lookup ps name) d else d)
           d0 ks = d0"
  using assms by (induction ks arbitrary: d0) (auto simp: payload_after_def)

lemma render_text_node_no_payload:
  assumes "container < length (nodes h)"
      and "''nodeValue'' \<notin> fst ` set ps"
      and "''data'' \<notin> fst ` set ps"
      and "''textContent'' \<notin> fst ` set ps"
  shows "payload (nodes (render (VNode ''TEXT_ELEMENT'' ps cs) container h) ! length (nodes h))
           = Some ''''"
  using assms by (simp add: render_root assign_payload_def assign_payload_unchanged)



section \<open>Properties of the state container\<close>

lemma forEach_listener_normal:
  assumes "\<forall>l \<in> set ls. \<forall>w. fst (invoke l w) = None"
  shows "fst (forEach_listener invoke ls w) = None
       \<and> map fst (fst (snd (forEach_listener invoke ls w))) = ls"
  using assms
proof (induction ls arbitrary: w)
  case Nil
  then show ?case by simp
next
  case (Cons l ls)
  obtain w' where i: "invoke l w = (None, w')"
    using Cons.prems by (cases "invoke l w") (metis fst_conv list.set_intros(1))
  have "\<forall>l \<in> set ls. \<forall>w. fst (invoke l w) = None" using Cons.prems by simp
  from Cons.IH[OF this, of w'] show ?case
    by (auto simp add: i split: prod.splits)
qed

lemma forEach_listener_readonly:
  assumes "\<forall>l \<in> set ls. \<forall>w. fst (invoke l w) = None \<and> fst (snd (invoke l w)) = fst w"
  shows "forEach_listener invoke ls (st, e) =
           (None, map (\<lambda>l. (l, state st)) ls,
            (st, foldl (\<lambda>e l. snd (snd (invoke l (st, e)))) e ls))"
  using assms
proof (induction ls arbitrary: e)
  case Nil
  then show ?case by simp
next
  case (Cons l ls)
  have "fst (invoke l (st, e)) = None" "fst (snd (invoke l (st, e))) = st"
    using Cons.prems by simp_all
  then obtain e' where i: "invoke l (st, e) = (None, (st, e'))"
    by (metis prod.collapse)
  have "\<forall>l \<in> set ls. \<forall>w. fst (invoke l w) = None \<and> fst (snd (invoke l w)) = fst w"
    using Cons.prems by simp
  from Cons.IH[OF this] show ?case
    by (simp add: i getState_def)
qed

text \<open>
  Whatever the listeners do, the first of them is entered with the state that the reducer
  returned: the assignment to \<open>state\<close> comes before the loop.
\<close>

lemma dispatch_first_call:
  assumes "reducer st (state st) action = Inr s'"
      and "listeners st = l # ls"
  shows "hd (fst (snd (dispatch invoke action (st, e)))) = (l, s')"
  using assms by (simp add: dispatch_def getState_def split: prod.splits option.splits)

text \<open>
  When every listener returns, the world after the loop is the world after calling the
  listeners one after the other.
\<close>

lemma forEach_listener_world:
  assumes "\<forall>l \<in> set ls. \<forall>w. fst (invoke l w) = None"
  shows "snd (snd (forEach_listener invoke ls w)) = foldl (\<lambda>w l. snd (invoke l w)) w ls"
  using assms
proof (induction ls arbitrary: w)
  case Nil
  then show ?case by simp
next
  case (Cons l ls)
  obtain w' where i: "invoke l w = (None, w')"
    using Cons.prems by (cases "invoke l w") (metis fst_conv list.set_intros(1))
  have "\<forall>l \<in> set ls. \<forall>w. fst (invoke l w) = None" using Cons.prems by simp
  from Cons.IH[OF this, of w'] show ?case
    by (auto simp add: i split: prod.splits)
qed

lemma foldl_replicate: "foldl f w (replicate k x) = ((\<lambda>w. f w x) ^^ k) w"
proof (induction k arbitrary: w)
  case 0
  show ?case by simp
next
  case (Suc k)
  have "((\<lambda>w. f w x) ^^ k) (f w x) = f (((\<lambda>w. f w x) ^^ k) w) x"
    using funpow_swap1[of "\<lambda>w. f w x" k w] by simp
  then show ?case using Suc by simp
qed

lemma subscribe_funpow:
  "(subscribe l ^^ k) st = st\<lparr>listeners := listeners st @ replicate k l\<rparr>"
proof (induction k)
  case 0
  show ?case by simp
next
  case (Suc k)
  then show ?case by (simp add: subscribe_def replicate_append_same)
qed

text \<open>
  C2. When the reducer returns and every registered observer returns normally,
  \<open>dispatch(action)\<close> sets the state to the reducer's result on the state before the
  dispatch and then calls every registered observer once for each registration, in
  subscription order; the state is updated before the first observer is entered. When the
  observers moreover leave the store as it is (they do not dispatch or subscribe
  themselves), each of them is entered with \<open>getState()\<close> giving the new state, and
  the new state is the state of the store after the dispatch. The new state is the
  reducer's result: it depends on the reducer, the state and the action alone.
\<close>

theorem dispatch_updates_then_notifies:
  assumes "reducer st (state st) action = Inr s'"
      and "\<forall>l \<in> set (listeners st). \<forall>w. fst (invoke l w) = None"
      and "calls = fst (snd (dispatch invoke action (st, e)))"
  shows "fst (dispatch invoke action (st, e)) = None
       \<and> map fst calls = listeners st
       \<and> (listeners st \<noteq> [] \<longrightarrow> snd (hd calls) = s')
       \<and> ((\<forall>l \<in> set (listeners st). \<forall>w. fst (snd (invoke l w)) = fst w) \<longrightarrow>
            dispatch invoke action (st, e) =
              (None,
               map (\<lambda>l. (l, s')) (listeners st),
               (st\<lparr>state := s'\<rparr>,
                foldl (\<lambda>e l. snd (snd (invoke l (st\<lparr>state := s'\<rparr>, e)))) e (listeners st))))"
proof -
  have d: "dispatch invoke action (st, e) =
             forEach_listener invoke (listeners st) (st\<lparr>state := s'\<rparr>, e)"
    using assms(1) by (simp add: dispatch_def)
  have order: "fst (dispatch invoke action (st, e)) = None \<and> map fst calls = listeners st"
    unfolding assms(3) d using forEach_listener_normal[OF assms(2)] by simp
  have first: "listeners st \<noteq> [] \<longrightarrow> snd (hd calls) = s'"
  proof
    assume "listeners st \<noteq> []"
    then obtain l ls where "listeners st = l # ls" by (cases "listeners st") auto
    from dispatch_first_call[OF assms(1) this, of invoke e] show "snd (hd calls) = s'"
      by (simp add: assms(3))
  qed
  have all: "(\<forall>l \<in> set (listeners st). \<forall>w. fst (snd (invoke l w)) = fst w) \<longrightarrow>
            dispatch invoke action (st, e) =
              (None,
               map (\<lambda>l. (l, s')) (listeners st),
               (st\<lparr>state := s'\<rparr>,
                foldl (\<lambda>e l. snd (snd (invoke l (st\<lparr>state := s'\<rparr>, e)))) e (listeners st)))"
  proof
    assume "\<forall>l \<in> set (listeners st). \<forall>w. fst (snd (invoke l w)) = fst w"
    with assms(2)
    have "\<forall>l \<in> set (listeners st). \<forall>w. fst (invoke l w) = None \<and> fst (snd (invoke l w)) = fst w"
      by simp
    from forEach_listener_readonly[OF this, of "st\<lparr>state := s'\<rparr>" e]
    show "dispatch invoke action (st, e) =
              (None,
               map (\<lambda>l. (l, s')) (listeners st),
               (st\<lparr>state := s'\<rparr>,
                foldl (\<lambda>e l. snd (snd (invoke l (st\<lparr>state := s'\<rparr>, e)))) e (listeners st)))"
      by (simp add: d)
  qed
  show ?thesis using order first all by blast
qed

text \<open>
  C7. \<open>subscribe\<close> appends the observer to the end of the listeners, without looking
  for duplicates: after subscribing the same observer \<open>k\<close> times the listeners are the
  old ones followed by \<open>k\<close> copies, and a dispatch calls the listeners in this order, so
  the observer is called \<open>k\<close> times more than before. The world after the dispatch
  is what \<open>k\<close> calls of the observer, one after the other, make of the world that the
  older listeners left.
\<close>

theorem subscribe_appends_without_dedup:
  assumes "reducer st (state st) action = Inr s'"
      and "\<forall>l \<in> set (listeners st) \<union> {observer}. \<forall>w. fst (invoke l w) = None"
      and "calls = fst (snd (dispatch invoke action ((subscribe observer ^^ k) st, e)))"
      and "older = foldl (\<lambda>w l. snd (invoke l w))
                     (st\<lparr>state := s', listeners := listeners st @ replicate k observer\<rparr>, e)
                     (listeners st)"
  shows "listeners (subscribe observer st) = listeners st @ [observer]
       \<and> listeners ((subscribe observer ^^ k) st) = listeners st @ replicate k observer
       \<and> fst (dispatch invoke action ((subscribe observer ^^ k) st, e)) = None
       \<and> map fst calls = listeners st @ replicate k observer
       \<and> count_list (map fst calls) observer = count_list (listeners st) observer + k
       \<and> snd (snd (dispatch invoke action ((subscribe observer ^^ k) st, e)))
           = ((\<lambda>w. snd (invoke observer w)) ^^ k) older"
proof -
  let ?st = "(subscribe observer ^^ k) st"
  have ls: "listeners ?st = listeners st @ replicate k observer"
    by (simp add: subscribe_funpow)
  have red: "reducer ?st (state ?st) action = Inr s'"
    using assms(1) by (simp add: subscribe_funpow)
  have normal: "\<forall>l \<in> set (listeners ?st). \<forall>w. fst (invoke l w) = None"
    using assms(2) by (auto simp: ls)
  have dd: "dispatch invoke action (?st, e) =
              forEach_listener invoke (listeners ?st) (?st\<lparr>state := s'\<rparr>, e)"
    using red by (simp add: dispatch_def)
  from forEach_listener_normal[OF normal, of "(?st\<lparr>state := s'\<rparr>, e)"]
  have d: "fst (dispatch invoke action (?st, e)) = None \<and> map fst calls = listeners ?st"
    by (simp add: dd assms(3))
  have "count_list (replicate k observer) observer = k"
    by (induction k) simp_all
  then have cnt: "count_list (listeners st @ replicate k observer) observer
                    = count_list (listeners st) observer + k"
    by simp
  have start: "?st\<lparr>state := s'\<rparr> = st\<lparr>state := s', listeners := listeners st @ replicate k observer\<rparr>"
    by (simp add: subscribe_funpow)
  have "snd (snd (dispatch invoke action (?st, e)))
          = foldl (\<lambda>w l. snd (invoke l w)) (?st\<lparr>state := s'\<rparr>, e) (listeners ?st)"
    unfolding dd by (rule forEach_listener_world[OF normal])
  also have "\<dots> = foldl (\<lambda>w l. snd (invoke l w)) older (replicate k observer)"
    unfolding ls start assms(4) by simp
  also have "\<dots> = ((\<lambda>w. snd (invoke observer w)) ^^ k) older"
    by (rule foldl_replicate)
  finally have world: "snd (snd (dispatch invoke action (?st, e)))
                         = ((\<lambda>w. snd (invoke observer w)) ^^ k) older" .
  show ?thesis
    using d ls cnt world by (simp add: subscribe_def)
qed

text \<open>
  C9. If the reducer throws during \<open>dispatch(action)\<close>, the exception reaches the
  caller of \<open>dispatch\<close>, the state of the store is what it was before, and no observer
  is called.
\<close>

theorem dispatch_reducer_throws:
  assumes "reducer st (state st) action = Inl err"
  shows "dispatch invoke action (st, e) = (Some err, [], (st, e))"
  using assms by (simp add: dispatch_def)

theorem dispatch_updates_then_notifies_witness:
  "reducer \<lparr>state = 0, reducer = counter_reducer, listeners = [''a'', ''b'', ''a'']\<rparr> 0 5 = Inr 5
   \<and> dispatch logging 5
        (\<lparr>state = 0, reducer = counter_reducer, listeners = [''a'', ''b'', ''a'']\<rparr>, [])
     = (None,
        [(''a'', 5), (''b'', 5), (''a'', 5)],
        (\<lparr>state = 5, reducer = counter_reducer, listeners = [''a'', ''b'', ''a'']\<rparr>,
         [(''a'', 5), (''b'', 5), (''a'', 5)]))"
  using dispatch_updates_then_notifies
    [of "\<lparr>state = 0, reducer = counter_reducer, listeners = [''a'', ''b'', ''a'']\<rparr>" 5 5
        logging
        "fst (snd (dispatch logging 5
           (\<lparr>state = 0, reducer = counter_reducer, listeners = [''a'', ''b'', ''a'']\<rparr>, [])))"
        "[]"]
  by (simp add: getState_def)

theorem subscribe_appends_without_dedup_witness:
  "reducer \<lparr>state = 0, reducer = counter_reducer, listeners = [''a'']\<rparr> 0 5 = Inr 5
   \<and> listeners ((subscribe ''b'' ^^ Suc (Suc 0))
         \<lparr>state = 0, reducer = counter_reducer, listeners = [''a'']\<rparr>) = [''a'', ''b'', ''b'']
   \<and> dispatch logging 5
        ((subscribe ''b'' ^^ Suc (Suc 0))
           \<lparr>state = 0, reducer = counter_reducer, listeners = [''a'']\<rparr>, [])
     = (None,
        [(''a'', 5), (''b'', 5), (''b'', 5)],
        (\<lparr>state = 5, reducer = counter_reducer, listeners = [''a'', ''b'', ''b'']\<rparr>,
         [(''a'', 5), (''b'', 5), (''b'', 5)]))"
  using subscribe_appends_without_dedup
    [of "\<lparr>state = 0, reducer = counter_reducer, listeners = [''a'']\<rparr>" 5 5
        "''b''" logging
        "fst (snd (dispatch logging 5
        ((subscribe ''b'' ^^ Suc (Suc 0))
           \<lparr>state = 0, reducer = counter_reducer, listeners = [''a'']\<rparr>, [])))"
        "Suc (Suc 0)" "[]"
        "foldl (\<lambda>w l. snd (logging l w))
           (\<lparr>state = 5, reducer = counter_reducer, listeners = [''a''] @ replicate (Suc (Suc 0)) ''b''\<rparr>, [])
           [''a'']"]
  by (simp add: subscribe_def dispatch_def getState_def)

theorem dispatch_reducer_throws_witness:
  "reducer \<lparr>state = 7, reducer = counter_reducer, listeners = [''a'', ''b'']\<rparr> 7 0
     = Inl (Thrown (JStr ''no such action''))
   \<and> dispatch logging 0 (\<lparr>state = 7, reducer = counter_reducer, listeners = [''a'', ''b'']\<rparr>, [])
     = (Some (Thrown (JStr ''no such action'')), [],
        (\<lparr>state = 7, reducer = counter_reducer, listeners = [''a'', ''b'']\<rparr>, []))"
  using dispatch_reducer_throws
    [of "\<lparr>state = 7, reducer = counter_reducer, listeners = [''a'', ''b'']\<rparr>" 0
        "Thrown (JStr ''no such action'')" logging "[]"]
  by simp

section \<open>Properties of the bootstrap\<close>

lemma no_clear_events:
  "ClearChildren i \<notin> set (render_events v c n)"
  "ClearChildren i \<notin> set (children_events cs p m)"
  by (induction v c n and cs p m rule: render_events_children_events.induct) auto

text \<open>One call of \<open>renderApp\<close>: the root element is cleared, then the tree is rendered into it.\<close>

lemma renderApp_eq:
  assumes "rootElement < length (nodes (snd w))"
      and "w' = renderApp rootComponent rootElement w"
      and "n = length (nodes (snd w))"
  shows "fst w' = fst w"
    and "events (snd w') = events (snd w) @ ClearChildren rootElement
            # render_events (rootComponent (getState (fst w))) rootElement n"
    and "childNodes (nodes (snd w') ! rootElement) = [n]"
    and "materialized (snd w') n (rootComponent (getState (fst w)))"
proof -
  let ?h = "clear_innerHTML rootElement (snd w)"
  have len: "length (nodes ?h) = n" "rootElement < length (nodes ?h)"
    using assms by (simp_all add: clear_innerHTML_def)
  have h': "snd w' = render (rootComponent (getState (fst w))) rootElement ?h"
    using assms(2) by (simp add: renderApp_def)
  show "fst w' = fst w" using assms(2) by (simp add: renderApp_def)
  show "events (snd w') = events (snd w) @ ClearChildren rootElement
            # render_events (rootComponent (getState (fst w))) rootElement n"
    unfolding h' render_events_eq[OF len(2)] len(1) by (simp add: clear_innerHTML_def)
  show "childNodes (nodes (snd w') ! rootElement) = [n]"
    unfolding h' render_container[OF len(2)] len(1) using assms(1) by (simp add: clear_innerHTML_def)
  show "materialized (snd w') n (rootComponent (getState (fst w)))"
    unfolding h' using render_materialized[OF len(2)] len(1) by simp
qed

text \<open>
  C8. \<open>createApp\<close> registers \<open>renderApp\<close> as the last observer of the store and calls
  it once, without dispatching: the state is untouched, and the calls made on the host
  are the two log lines, one clearing of the root element and the rendering of
  \<open>rootComponent(store.getState())\<close> into it, so that the root element holds the
  materialization of the root component at the current state, the initial one for a new
  store. Every call of \<open>renderApp\<close>, as an observer too, clears the children of the
  root element first and then renders the root component at the state of that moment.
\<close>

theorem createApp_initial_render:
  fixes st :: "('s, 'a, ('s, 'u) listener) store"
    and handler :: "'u \<Rightarrow> ('s, 'a, ('s, 'u) listener, host) world
                       \<Rightarrow> error option \<times> ('s, 'a, ('s, 'u) listener, host) world"
  assumes "rootElement < length (nodes h)"
      and "createApp rootComponent rootElement (st, h) = (st', h')"
      and "n = length (nodes h)"
  shows "st' = subscribe (RenderApp rootComponent rootElement) st
       \<and> listeners st' = listeners st @ [RenderApp rootComponent rootElement]
       \<and> getState st' = getState st
       \<and> events h' = events h
            @ [ConsoleLog ''GL.JS Micro-Framework'', ConsoleLog ''Initializing application...'',
               ClearChildren rootElement]
            @ render_events (rootComponent (getState st)) rootElement n
       \<and> count_list (drop (length (events h)) (events h')) (ClearChildren rootElement) = 1
       \<and> childNodes (nodes h' ! rootElement) = [n]
       \<and> materialized h' n (rootComponent (getState st))
       \<and> (st = Store r initialState \<longrightarrow> materialized h' n (rootComponent initialState))
       \<and> (\<forall>w. rootElement < length (nodes (snd w)) \<longrightarrow>
            call handler (RenderApp rootComponent rootElement) w
              = (None, renderApp rootComponent rootElement w)
            \<and> fst (renderApp rootComponent rootElement w) = fst w
            \<and> events (snd (renderApp rootComponent rootElement w))
                = events (snd w) @ ClearChildren rootElement
                    # render_events (rootComponent (getState (fst w))) rootElement (length (nodes (snd w)))
            \<and> childNodes (nodes (snd (renderApp rootComponent rootElement w)) ! rootElement)
                = [length (nodes (snd w))]
            \<and> materialized (snd (renderApp rootComponent rootElement w)) (length (nodes (snd w)))
                 (rootComponent (getState (fst w))))"
proof -
  let ?st = "subscribe (RenderApp rootComponent rootElement) st"
  let ?h2 = "console_log ''Initializing application...'' (console_log ''GL.JS Micro-Framework'' h)"
  have ca: "(st', h') = renderApp rootComponent rootElement (?st, ?h2)"
    using assms(2) by (simp add: createApp_def)
  have re: "rootElement < length (nodes (snd (?st, ?h2)))"
    using assms(1) by (simp add: console_log_def)
  have n: "n = length (nodes (snd (?st, ?h2)))"
    using assms(3) by (simp add: console_log_def)
  note ra = renderApp_eq[OF re ca n]
  have st': "st' = ?st" using ra(1) by simp
  have gs: "getState ?st = getState st" by (simp add: subscribe_def getState_def)
  have ev: "events h' = events h
            @ [ConsoleLog ''GL.JS Micro-Framework'', ConsoleLog ''Initializing application...'',
               ClearChildren rootElement]
            @ render_events (rootComponent (getState st)) rootElement n"
    using ra(2) by (simp add: gs console_log_def)
  have cnt: "count_list (drop (length (events h)) (events h')) (ClearChildren rootElement) = 1"
    unfolding ev by (simp add: no_clear_events)
  have kids: "childNodes (nodes h' ! rootElement) = [n]"
    using ra(3) by simp
  have mat: "materialized h' n (rootComponent (getState st))"
    using ra(4) by (simp add: gs)
  have fresh: "st = Store r initialState \<longrightarrow> materialized h' n (rootComponent initialState)"
    using mat by (auto simp: Store_def getState_def)
  have every: "\<forall>w. rootElement < length (nodes (snd w)) \<longrightarrow>
            call handler (RenderApp rootComponent rootElement) w
              = (None, renderApp rootComponent rootElement w)
            \<and> fst (renderApp rootComponent rootElement w) = fst w
            \<and> events (snd (renderApp rootComponent rootElement w))
                = events (snd w) @ ClearChildren rootElement
                    # render_events (rootComponent (getState (fst w))) rootElement (length (nodes (snd w)))
            \<and> childNodes (nodes (snd (renderApp rootComponent rootElement w)) ! rootElement)
                = [length (nodes (snd w))]
            \<and> materialized (snd (renderApp rootComponent rootElement w)) (length (nodes (snd w)))
                 (rootComponent (getState (fst w)))"
  proof (intro allI impI)
    fix w :: "('s, 'a, ('s, 'u) listener, host) world"
    assume "rootElement < length (nodes (snd w))"
    from renderApp_eq[OF this refl refl, of rootComponent]
    show "call handler (RenderApp rootComponent rootElement) w
              = (None, renderApp rootComponent rootElement w)
            \<and> fst (renderApp rootComponent rootElement w) = fst w
            \<and> events (snd (renderApp rootComponent rootElement w))
                = events (snd w) @ ClearChildren rootElement
                    # render_events (rootComponent (getState (fst w))) rootElement (length (nodes (snd w)))
            \<and> childNodes (nodes (snd (renderApp rootComponent rootElement w)) ! rootElement)
                = [length (nodes (snd w))]
            \<and> materialized (snd (renderApp rootComponent rootElement w)) (length (nodes (snd w)))
                 (rootComponent (getState (fst w)))"
      by (intro conjI) simp_all
  qed
  show ?thesis
    using st' gs ev cnt kids mat fresh every by (simp add: subscribe_def)
qed

theorem createApp_initial_render_witness:
  "0 < length (nodes root_only)
   \<and> createApp counter_view 0 (Store counter_reducer 0, root_only)
     = (\<lparr>state = 0, reducer = counter_reducer, listeners = [RenderApp counter_view 0 :: (int, string) listener]\<rparr>,
        \<lparr>nodes = [\<lparr>kind = ElementNode ''div'', assigned = [], payload = None, childNodes = [1]\<rparr>,
                  \<lparr>kind = ElementNode ''h1'', assigned = [], payload = None, childNodes = [2]\<rparr>,
                  \<lparr>kind = TextNode, assigned = [(''nodeValue'', JNum 0)],
                    payload = Some ''0'', childNodes = []\<rparr>],
         events = [ConsoleLog ''GL.JS Micro-Framework'', ConsoleLog ''Initializing application...'',
                   ClearChildren 0,
                   CreateElement 1 ''h1'', CreateTextNode 2 '''', SetProperty 2 ''nodeValue'' (JNum 0),
                   AppendChild 1 2, AppendChild 0 1]\<rparr>)"
  using createApp_initial_render
    [of 0 root_only counter_view "Store counter_reducer 0"
        "\<lparr>state = 0, reducer = counter_reducer, listeners = [RenderApp counter_view 0]\<rparr>"
        "\<lparr>nodes = [\<lparr>kind = ElementNode ''div'', assigned = [], payload = None, childNodes = [1]\<rparr>,
                  \<lparr>kind = ElementNode ''h1'', assigned = [], payload = None, childNodes = [2]\<rparr>,
                  \<lparr>kind = TextNode, assigned = [(''nodeValue'', JNum 0)],
                    payload = Some ''0'', childNodes = []\<rparr>],
         events = [ConsoleLog ''GL.JS Micro-Framework'', ConsoleLog ''Initializing application...'',
                   ClearChildren 0,
                   CreateElement 1 ''h1'', CreateTextNode 2 '''', SetProperty 2 ''nodeValue'' (JNum 0),
                   AppendChild 1 2, AppendChild 0 1]\<rparr>"
        1 counter_reducer 0 no_handler]
  by (simp add: createApp_def renderApp_def Store_def subscribe_def getState_def render.simps
        host_ops lookup_def)

text \<open>
  The scenario of the specification: a counter application, after \<open>createApp\<close> and one
  dispatch. The root element is cleared and holds a new tree, whose text carries the new
  count.
\<close>

lemma counter_app_rerenders:
  "dispatch (call no_handler) 1 (createApp counter_view 0 (Store counter_reducer 0, root_only))
     = (None,
        [(RenderApp counter_view 0, 1)],
        (\<lparr>state = 1, reducer = counter_reducer, listeners = [RenderApp counter_view 0]\<rparr>,
         \<lparr>nodes = [\<lparr>kind = ElementNode ''div'', assigned = [], payload = None, childNodes = [3]\<rparr>,
                   \<lparr>kind = ElementNode ''h1'', assigned = [], payload = None, childNodes = [2]\<rparr>,
                   \<lparr>kind = TextNode, assigned = [(''nodeValue'', JNum 0)],
                    payload = Some ''0'', childNodes = []\<rparr>,
                   \<lparr>kind = ElementNode ''h1'', assigned = [], payload = None, childNodes = [4]\<rparr>,
                   \<lparr>kind = TextNode, assigned = [(''nodeValue'', JNum 1)],
                    payload = Some ''1'', childNodes = []\<rparr>],
          events = [ConsoleLog ''GL.JS Micro-Framework'', ConsoleLog ''Initializing application...'',
                    ClearChildren 0,
                    CreateElement 1 ''h1'', CreateTextNode 2 '''', SetProperty 2 ''nodeValue'' (JNum 0),
                    AppendChild 1 2, AppendChild 0 1,
                    ClearChildren 0,
                    CreateElement 3 ''h1'', CreateTextNode 4 '''', SetProperty 4 ''nodeValue'' (JNum 1),
                    AppendChild 3 4, AppendChild 0 3]\<rparr>))"
  by (simp add: dispatch_def createApp_def renderApp_def Store_def subscribe_def getState_def
        render.simps host_ops lookup_def)

end
